theory Spec2Isabelle
  imports Main
begin

section \<open>Python built-ins used by QQAvatar\<close>

text \<open>
  Identifiers are Python strings.  A \<^typ>\<open>char\<close> stands for one code point below 256, so a
  \<^typ>\<open>string\<close> is a Python \<open>str\<close> over that range.  Python's \<open>int()\<close> also accepts decimal
  digits and spaces of Unicode beyond it; such strings cannot be written here.  The
  interpreter's optional limit on the number of digits converted between \<open>int\<close> and \<open>str\<close> is a
  resource guard outside the language semantics and is taken to be switched off.
\<close>

text \<open>
  The exceptions that occur.  \<open>ValueError\<close> is what \<open>int\<close> raises; \<open>HTTPError\<close>,
  \<open>ConnectionError\<close> and \<open>Timeout\<close> are those of \<open>requests\<close>; \<open>UnicodeEncodeError\<close> is
  what \<open>print\<close> raises on a standard output that cannot encode a line.
\<close>

datatype pyexc =
    ValueError
  | HTTPError nat
  | ConnectionError
  | Timeout
  | UnicodeEncodeError
  | OSError
  | RuntimeError

text \<open>\<open>requests.exceptions.RequestException\<close> and its subclasses.\<close>

fun is_request_exception :: "pyexc \<Rightarrow> bool" where
  "is_request_exception (HTTPError _) = True"
| "is_request_exception ConnectionError = True"
| "is_request_exception Timeout = True"
| "is_request_exception _ = False"

text \<open>The argument \<open>qq: Union[str, int]\<close>.\<close>

datatype qq_num = QQStr string | QQInt int

text \<open>\<open>str(n)\<close> for an \<open>int\<close>: decimal digits, most significant first, \<open>-\<close> before a negative.\<close>

fun nat_digits :: "nat \<Rightarrow> string" where
  "nat_digits n =
     (if n < 10 then [''0123456789'' ! n]
      else nat_digits (n div 10) @ [''0123456789'' ! (n mod 10)])"

declare nat_digits.simps [simp del]

definition str_int :: "int \<Rightarrow> string" where
  "str_int i = (if i < 0 then CHR ''-'' # nat_digits (nat (- i)) else nat_digits (nat i))"

text \<open>\<open>str(qq)\<close>: the identity on a \<open>str\<close>.\<close>

fun py_str :: "qq_num \<Rightarrow> string" where
  "py_str (QQStr s) = s"
| "py_str (QQInt i) = str_int i"

text \<open>
  \<open>int(s)\<close> for a \<open>str\<close>, base 10: surrounding whitespace is skipped, one sign is allowed, then
  at least one digit; a single underscore may stand between two digits.  Anything else raises
  \<open>ValueError\<close>, here \<open>None\<close>.
\<close>

definition is_space :: "char \<Rightarrow> bool" where
  "is_space c \<longleftrightarrow> c \<in> set [CHR 0x09, CHR 0x0A, CHR 0x0B, CHR 0x0C, CHR 0x0D, CHR 0x20,
                              CHR 0x85, CHR 0xA0]"

definition is_digit :: "char \<Rightarrow> bool" where
  "is_digit c \<longleftrightarrow> c \<in> set ''0123456789''"

definition digit_val :: "char \<Rightarrow> nat" where
  "digit_val c = of_char c - 48"

fun parse_digits :: "string \<Rightarrow> nat \<Rightarrow> nat option" where
  "parse_digits [] acc = Some acc"
| "parse_digits (c # cs) acc =
     (if is_digit c then parse_digits cs (acc * 10 + digit_val c)
      else if c = CHR ''_'' then
        (case cs of
           [] \<Rightarrow> None
         | d # ds \<Rightarrow> if is_digit d then parse_digits cs acc else None)
      else None)"

definition parse_unsigned :: "string \<Rightarrow> nat option" where
  "parse_unsigned s =
     (case s of
        [] \<Rightarrow> None
      | c # cs \<Rightarrow> if is_digit c then parse_digits cs (digit_val c) else None)"

definition strip :: "string \<Rightarrow> string" where
  "strip s = rev (dropWhile is_space (rev (dropWhile is_space s)))"

definition py_int :: "string \<Rightarrow> int option" where
  "py_int s =
     (case strip s of
        [] \<Rightarrow> None
      | c # cs \<Rightarrow>
          if c = CHR ''-'' then map_option (\<lambda>n. - int n) (parse_unsigned cs)
          else if c = CHR ''+'' then map_option int (parse_unsigned cs)
          else map_option int (parse_unsigned (c # cs)))"

section \<open>URL construction\<close>

text \<open>The two templates set in \<open>__init__\<close>, applied with \<open>str.format\<close>.\<close>

definition normal_url_template :: "string \<Rightarrow> string \<Rightarrow> int \<Rightarrow> string" where
  "normal_url_template server qq sz =
     ''http://q'' @ server @ ''.qlogo.cn/g?b=qq&nk='' @ qq @ ''&s='' @ str_int sz"

definition hd_url_template :: "string \<Rightarrow> int \<Rightarrow> string" where
  "hd_url_template qq sz =
     ''http://q.qlogo.cn/headimg_dl?dst_uin='' @ qq @ ''&spec='' @ str_int sz @ ''&img_type=jpg''"

definition get_avatar_url :: "qq_num \<Rightarrow> bool \<Rightarrow> int \<Rightarrow> pyexc + string" where
  "get_avatar_url qq hd_flag sz =
     (let qq_str = py_str qq in
      if hd_flag then
        (let sz = (if sz > 640 then 640 else sz) in
         Inr (hd_url_template qq_str sz))
      else
        (let sz = (if sz > 140 then 140 else sz) in
         case py_int qq_str of
           None \<Rightarrow> Inl ValueError
         | Some n \<Rightarrow>
             (let server = (if n mod 2 = 0 then ''1'' else ''2'') in
              Inr (normal_url_template server qq_str sz))))"

section \<open>The environment: network, file system and standard output\<close>

text \<open>
  \<open>requests\<close>, \<open>os\<close> and the standard output are outside the program.  Each call the program
  makes is appended to a log, and what the call answers is given by an environment that may
  depend on every call made and every line printed before.  An exception raised by the
  environment is a value.  All exceptions here derive from \<open>Exception\<close>; signals such as
  \<open>KeyboardInterrupt\<close> are not modelled.
\<close>

type_synonym bytes = "nat list"

record response =
  status_code :: nat
  content :: bytes

text \<open>
  The calls that reach the network and the file system: \<open>requests.get(url, timeout)\<close>,
  \<open>requests.head(url, timeout)\<close>, \<open>os.path.exists(path)\<close>, \<open>os.makedirs(path, exist_ok)\<close>,
  and \<open>WriteFile path body\<close> for opening \<open>path\<close> in mode \<open>wb\<close>, writing \<open>body\<close> and closing.
  A response is the final one, after the redirects that \<open>requests.get\<close> follows.
\<close>

datatype io_call =
    HttpGet string nat
  | HttpHead string nat
  | PathExists string
  | Makedirs string bool
  | WriteFile string bytes

text \<open>
  The lines the program prints, one constructor for each \<open>print\<close> of the source: the file
  saved (path, number of bytes), the two failure lines of \<open>download_avatar\<close> with the
  exception, and in \<open>batch_download\<close> the opening line (number of identifiers), the progress
  line (index, total, identifier) and the closing summary (successes, total).
\<close>

datatype message =
    Saved string nat
  | DownloadFailed pyexc
  | SaveFailed pyexc
  | BatchStart nat
  | Progress nat nat qq_num
  | BatchDone nat nat

text \<open>
  The environment answers each call from the log of the calls before it.
  \<open>os.path.abspath\<close> asks the operating system for the current directory and can raise;
  \<open>os.path.dirname\<close> and \<open>os.path.join\<close> only compute on strings, in a way that depends on the
  platform.  \<open>stdout_write\<close> is what \<open>print\<close> meets: every line of the program contains
  characters outside ASCII, so a standard output that cannot encode them raises
  \<open>UnicodeEncodeError\<close>, and a closed one raises too.
\<close>

record env =
  requests_get :: "io_call list \<Rightarrow> string \<Rightarrow> nat \<Rightarrow> pyexc + response"
  requests_head :: "io_call list \<Rightarrow> string \<Rightarrow> nat \<Rightarrow> pyexc + response"
  os_path_exists :: "io_call list \<Rightarrow> string \<Rightarrow> bool"
  os_makedirs :: "io_call list \<Rightarrow> string \<Rightarrow> bool \<Rightarrow> pyexc option"
  write_file :: "io_call list \<Rightarrow> string \<Rightarrow> bytes \<Rightarrow> pyexc option"
  os_path_abspath :: "io_call list \<Rightarrow> string \<Rightarrow> pyexc + string"
  os_path_dirname :: "string \<Rightarrow> string"
  os_path_join :: "string \<Rightarrow> string \<Rightarrow> string"
  stdout_write :: "io_call list \<Rightarrow> message list \<Rightarrow> message \<Rightarrow> pyexc option"

record world =
  calls :: "io_call list"
  printed :: "message list"

definition log_call :: "io_call \<Rightarrow> world \<Rightarrow> world" where
  "log_call c w = w\<lparr>calls := calls w @ [c]\<rparr>"

text \<open>
  \<open>print(line)\<close>: the exception of the standard output, if it raises one, and the world after;
  a line that could not be written is not counted as printed.
\<close>

definition print :: "env \<Rightarrow> message \<Rightarrow> world \<Rightarrow> pyexc option \<times> world" where
  "print E m w =
     (case stdout_write E (calls w) (printed w) m of
        Some e \<Rightarrow> (Some e, w)
      | None \<Rightarrow> (None, w\<lparr>printed := printed w @ [m]\<rparr>))"

text \<open>\<open>Response.raise_for_status\<close>: an \<open>HTTPError\<close> for a status from 400 to 599.\<close>

definition raise_for_status :: "response \<Rightarrow> pyexc option" where
  "raise_for_status r =
     (if 400 \<le> status_code r \<and> status_code r < 600 then Some (HTTPError (status_code r))
      else None)"

section \<open>Downloading\<close>

text \<open>
  The body of the \<open>try\<close> in \<open>download_avatar\<close>; \<open>Inl\<close> is the exception that leaves it.  The
  \<open>print\<close> of the saved file is its last statement, still inside the \<open>try\<close>.
\<close>

definition download_try :: "env \<Rightarrow> world \<Rightarrow> string \<Rightarrow> string \<Rightarrow> (pyexc + unit) \<times> world" where
  "download_try E w url save_path =
     (let w1 = log_call (HttpGet url 10) w in
      case requests_get E (calls w) url 10 of
        Inl e \<Rightarrow> (Inl e, w1)
      | Inr resp \<Rightarrow>
          (case raise_for_status resp of
             Some e \<Rightarrow> (Inl e, w1)
           | None \<Rightarrow>
               (case os_path_abspath E (calls w1) save_path of
                  Inl e \<Rightarrow> (Inl e, w1)
                | Inr absolute \<Rightarrow>
                    (let dir = os_path_dirname E absolute;
                         w2 = log_call (Makedirs dir True) w1 in
                     case os_makedirs E (calls w1) dir True of
                       Some e \<Rightarrow> (Inl e, w2)
                     | None \<Rightarrow>
                         (let w3 = log_call (WriteFile save_path (content resp)) w2 in
                          case write_file E (calls w2) save_path (content resp) of
                            Some e \<Rightarrow> (Inl e, w3)
                          | None \<Rightarrow>
                              (case print E (Saved save_path (length (content resp))) w3 of
                                 (Some e, w4) \<Rightarrow> (Inl e, w4)
                               | (None, w4) \<Rightarrow> (Inr (), w4)))))))"

text \<open>
  The two \<open>except\<close> clauses: a \<open>RequestException\<close> is caught by the first, every other
  exception by the second.  Each prints its line and returns \<open>False\<close>.
\<close>

definition failure_line :: "pyexc \<Rightarrow> message" where
  "failure_line e = (if is_request_exception e then DownloadFailed e else SaveFailed e)"

text \<open>
  \<open>download_avatar\<close>: the URL is built first, outside the \<open>try\<close>, so an exception of
  \<open>get_avatar_url\<close> leaves the function.  Then the default path is chosen when \<open>save_path\<close> is
  \<open>None\<close>, the \<open>try\<close> body runs, and the handlers turn every exception of the body into
  \<open>False\<close>.  The \<open>print\<close> of a handler is outside the \<open>try\<close>: its exception leaves the function.
\<close>

definition download_avatar ::
  "env \<Rightarrow> world \<Rightarrow> qq_num \<Rightarrow> string option \<Rightarrow> bool \<Rightarrow> int \<Rightarrow> (pyexc + bool) \<times> world" where
  "download_avatar E w qq save_path hd_flag sz =
     (case get_avatar_url qq hd_flag sz of
        Inl e \<Rightarrow> (Inl e, w)
      | Inr url \<Rightarrow>
          (let save_path =
                 (case save_path of
                    None \<Rightarrow>
                      (let suffix = (if hd_flag then ''_hd.jpg'' else ''.png'') in
                       ''qq_'' @ py_str qq @ suffix)
                  | Some p \<Rightarrow> p) in
           case download_try E w url save_path of
             (Inr _, w') \<Rightarrow> (Inr True, w')
           | (Inl e, w') \<Rightarrow>
               (case print E (failure_line e) w' of
                  (Some e', w'') \<Rightarrow> (Inl e', w'')
                | (None, w'') \<Rightarrow> (Inr False, w''))))"

text \<open>
  \<open>check_avatar_exists\<close>: the URL is built with the default size 640, again before the
  \<open>try\<close>; the bare \<open>except\<close> answers \<open>False\<close> for every exception of the HEAD request.
\<close>

definition check_avatar_exists ::
  "env \<Rightarrow> world \<Rightarrow> qq_num \<Rightarrow> bool \<Rightarrow> (pyexc + bool) \<times> world" where
  "check_avatar_exists E w qq hd_flag =
     (case get_avatar_url qq hd_flag 640 of
        Inl e \<Rightarrow> (Inl e, w)
      | Inr url \<Rightarrow>
          (let w1 = log_call (HttpHead url 5) w in
           case requests_head E (calls w) url 5 of
             Inl e \<Rightarrow> (Inr False, w1)
           | Inr resp \<Rightarrow> (Inr (status_code resp = 200), w1)))"

text \<open>The \<open>for\<close> loop of \<open>batch_download\<close>: \<open>i\<close> counts from 1, \<open>n\<close> is \<open>len(qq_list)\<close>.\<close>

fun batch_loop ::
  "env \<Rightarrow> nat \<Rightarrow> string \<Rightarrow> bool \<Rightarrow> int \<Rightarrow> qq_num list \<Rightarrow> nat \<Rightarrow> nat \<Rightarrow> world
     \<Rightarrow> (pyexc + nat) \<times> world" where
  "batch_loop E n output_dir hd_flag sz [] i success_count w = (Inr success_count, w)"
| "batch_loop E n output_dir hd_flag sz (qq # rest) i success_count w =
     (case print E (Progress i n qq) w of
        (Some e, w1) \<Rightarrow> (Inl e, w1)
      | (None, w1) \<Rightarrow>
          (let suffix = (if hd_flag then ''_hd.jpg'' else ''.png'');
               save_path = os_path_join E output_dir (py_str qq @ suffix) in
           case download_avatar E w1 qq (Some save_path) hd_flag sz of
             (Inl e, w2) \<Rightarrow> (Inl e, w2)
           | (Inr ok, w2) \<Rightarrow>
               batch_loop E n output_dir hd_flag sz rest (i + 1)
                 (if ok then success_count + 1 else success_count) w2))"

text \<open>
  \<open>batch_download\<close>: the directory is created when \<open>os.path.exists\<close> denies it (an exception
  of \<open>os.makedirs\<close> leaves the function), then the loop runs and the summary is printed.  There
  is no \<open>return\<close>: the result is \<open>None\<close>.
\<close>

definition batch_download ::
  "env \<Rightarrow> world \<Rightarrow> qq_num list \<Rightarrow> string \<Rightarrow> bool \<Rightarrow> int \<Rightarrow> (pyexc + unit) \<times> world" where
  "batch_download E w qq_list output_dir hd_flag sz =
     (let w1 = log_call (PathExists output_dir) w;
          made =
            (if \<not> os_path_exists E (calls w) output_dir then
               (os_makedirs E (calls w1) output_dir False,
                log_call (Makedirs output_dir False) w1)
             else (None, w1)) in
      case made of
        (Some e, w2) \<Rightarrow> (Inl e, w2)
      | (None, w2) \<Rightarrow>
          (case print E (BatchStart (length qq_list)) w2 of
             (Some e, w3) \<Rightarrow> (Inl e, w3)
           | (None, w3) \<Rightarrow>
               (case batch_loop E (length qq_list) output_dir hd_flag sz qq_list 1 0 w3 of
                  (Inl e, w4) \<Rightarrow> (Inl e, w4)
                | (Inr success_count, w4) \<Rightarrow>
                    (case print E (BatchDone success_count (length qq_list)) w4 of
                       (Some e, w5) \<Rightarrow> (Inl e, w5)
                     | (None, w5) \<Rightarrow> (Inr (), w5)))))"

section \<open>Reading the log\<close>

fun get_urls :: "io_call list \<Rightarrow> string list" where
  "get_urls [] = []"
| "get_urls (HttpGet u t # cs) = u # get_urls cs"
| "get_urls (c # cs) = get_urls cs"

fun is_http :: "io_call \<Rightarrow> bool" where
  "is_http (HttpGet u t) = True"
| "is_http (HttpHead u t) = True"
| "is_http c = False"

fun is_saved :: "message \<Rightarrow> bool" where
  "is_saved (Saved p k) = True"
| "is_saved m = False"

fun is_progress :: "message \<Rightarrow> bool" where
  "is_progress (Progress i n qq) = True"
| "is_progress m = False"

fun is_batch_done :: "message \<Rightarrow> bool" where
  "is_batch_done (BatchDone k n) = True"
| "is_batch_done m = False"

section \<open>Sample environments\<close>

text \<open>
  In \<open>sample_env\<close> the k-th HTTP request is answered by the k-th entry of a script (a
  connection error once the script is used up); the file system never fails, the output
  directory does not exist yet, and the standard output takes every line.  Paths follow POSIX
  for a current directory \<open>/home/user\<close>.  \<open>ascii_stdout\<close> replaces the standard output by one
  that cannot encode the lines of the program.
\<close>

definition scripted :: "(pyexc + response) list \<Rightarrow> io_call list \<Rightarrow> pyexc + response" where
  "scripted script history =
     (let k = length (filter is_http history) in
      if k < length script then script ! k else Inl ConnectionError)"

definition sample_env :: "(pyexc + response) list \<Rightarrow> env" where
  "sample_env script =
     \<lparr> requests_get = (\<lambda>h u t. scripted script h),
       requests_head = (\<lambda>h u t. scripted script h),
       os_path_exists = (\<lambda>h p. False),
       os_makedirs = (\<lambda>h p ok. None),
       write_file = (\<lambda>h p b. None),
       os_path_abspath = (\<lambda>h p. case p of [] \<Rightarrow> Inr ''/home/user''
                                 | c # cs \<Rightarrow> if c = CHR ''/'' then Inr p
                                            else Inr (''/home/user/'' @ p)),
       os_path_dirname = (\<lambda>p. rev (drop 1 (dropWhile (\<lambda>c. c \<noteq> CHR ''/'') (rev p)))),
       os_path_join = (\<lambda>a b. a @ ''/'' @ b),
       stdout_write = (\<lambda>h ps m. None) \<rparr>"

definition ascii_stdout :: "env \<Rightarrow> env" where
  "ascii_stdout E = E\<lparr>stdout_write := (\<lambda>h ps m. Some UnicodeEncodeError)\<rparr>"

definition world0 :: world where
  "world0 = \<lparr> calls = [], printed = [] \<rparr>"

definition ok_response :: "bytes \<Rightarrow> pyexc + response" where
  "ok_response b = Inr \<lparr> status_code = 200, content = b \<rparr>"

section \<open>Properties of URL construction\<close>

lemmas url_eval =
  get_avatar_url_def hd_url_template_def normal_url_template_def str_int_def nat_digits.simps
  py_int_def strip_def is_space_def parse_unsigned_def is_digit_def digit_val_def

lemma str_int_640: "str_int 640 = ''640''"
  by (simp add: str_int_def nat_digits.simps)

lemma str_int_140: "str_int 140 = ''140''"
  by (simp add: str_int_def nat_digits.simps)

lemma get_avatar_url_hd:
  "get_avatar_url qq True sz = Inr (hd_url_template (py_str qq) (min sz 640))"
  by (simp add: get_avatar_url_def min_def)

lemma get_avatar_url_normal:
  "get_avatar_url qq False sz =
     (case py_int (py_str qq) of
        None \<Rightarrow> Inl ValueError
      | Some n \<Rightarrow>
          Inr (normal_url_template (if n mod 2 = 0 then ''1'' else ''2'') (py_str qq) (min sz 140)))"
  by (simp add: get_avatar_url_def min_def split: option.splits)

text \<open>
  An \<open>int\<close> identifier is always accepted: \<open>int(str(i))\<close> is \<open>i\<close>.
\<close>

lemma digit_char_props:
  assumes "k < 10"
  shows "is_digit (''0123456789'' ! k)"
    and "digit_val (''0123456789'' ! k) = k"
    and "\<not> is_space (''0123456789'' ! k)"
    and "''0123456789'' ! k \<noteq> CHR ''-''"
    and "''0123456789'' ! k \<noteq> CHR ''+''"
proof -
  from assms have "k \<in> {0, 1, 2, 3, 4, 5, 6, 7, 8, 9}"
    by auto
  then show "is_digit (''0123456789'' ! k)"
    and "digit_val (''0123456789'' ! k) = k"
    and "\<not> is_space (''0123456789'' ! k)"
    and "''0123456789'' ! k \<noteq> CHR ''-''"
    and "''0123456789'' ! k \<noteq> CHR ''+''"
    by (auto simp: is_digit_def digit_val_def is_space_def)
qed

lemma parse_digits_snoc:
  assumes "\<forall>c\<in>set xs. is_digit c" and "is_digit d"
  shows "parse_digits (xs @ [d]) acc =
           map_option (\<lambda>v. v * 10 + digit_val d) (parse_digits xs acc)"
  using assms by (induction xs arbitrary: acc) simp_all

lemma nat_digits_all_digits: "\<forall>c\<in>set (nat_digits n). is_digit c"
proof (induction n rule: nat_digits.induct)
  case (1 n)
  show ?case
  proof (cases "n < 10")
    case True
    then show ?thesis
      by (subst nat_digits.simps) (simp add: digit_char_props)
  next
    case False
    with "1" show ?thesis
      by (subst nat_digits.simps) (simp add: digit_char_props)
  qed
qed

lemma nat_digits_nonempty: "nat_digits n \<noteq> []"
  by (subst nat_digits.simps) simp

lemma parse_digits_nat_digits: "parse_digits (nat_digits n) 0 = Some n"
proof (induction n rule: nat_digits.induct)
  case (1 n)
  show ?case
  proof (cases "n < 10")
    case True
    then show ?thesis
      by (subst nat_digits.simps) (simp add: digit_char_props)
  next
    case False
    then have "parse_digits (nat_digits (n div 10)) 0 = Some (n div 10)"
      using "1" by simp
    then have "parse_digits (nat_digits (n div 10) @ [''0123456789'' ! (n mod 10)]) 0 =
                 Some (n div 10 * 10 + n mod 10)"
      by (simp add: parse_digits_snoc nat_digits_all_digits digit_char_props)
    with False show ?thesis
      by (subst nat_digits.simps) simp
  qed
qed

lemma parse_unsigned_nat_digits: "parse_unsigned (nat_digits n) = Some n"
proof -
  obtain c cs where s: "nat_digits n = c # cs"
    using nat_digits_nonempty [of n] by (cases "nat_digits n") auto
  with nat_digits_all_digits [of n] have c: "is_digit c"
    by simp
  from parse_digits_nat_digits [of n] s c have "parse_digits cs (digit_val c) = Some n"
    by simp
  with s c show ?thesis
    by (simp add: parse_unsigned_def)
qed

lemma digit_not_space: "is_digit c \<Longrightarrow> \<not> is_space c"
  by (auto simp: is_digit_def is_space_def)

lemma strip_no_space:
  assumes "s \<noteq> []" and "\<not> is_space (hd s)" and "\<not> is_space (last s)"
  shows "strip s = s"
proof -
  from assms have "dropWhile is_space s = s"
    by (cases s) simp_all
  moreover from assms have "dropWhile is_space (rev s) = rev s"
    by (cases "rev s") (simp_all add: last_rev [symmetric] hd_rev)
  ultimately show ?thesis
    by (simp add: strip_def)
qed

lemma py_int_str_int: "py_int (str_int i) = Some i"
proof -
  let ?ds = "nat_digits (nat \<bar>i\<bar>)"
  obtain c cs where s: "?ds = c # cs"
    using nat_digits_nonempty [of "nat \<bar>i\<bar>"] by (cases ?ds) auto
  from nat_digits_all_digits [of "nat \<bar>i\<bar>"] s have c: "is_digit c"
    by simp
  from nat_digits_all_digits [of "nat \<bar>i\<bar>"] nat_digits_nonempty [of "nat \<bar>i\<bar>"]
  have l: "is_digit (last ?ds)"
    by simp
  have cm: "c \<noteq> CHR ''-''" "c \<noteq> CHR ''+''"
    using c by (auto simp: is_digit_def)
  have sp: "\<not> is_space (CHR ''-'')"
    by (simp add: is_space_def)
  show ?thesis
  proof (cases "i < 0")
    case True
    then have e: "str_int i = CHR ''-'' # ?ds"
      by (simp add: str_int_def abs_if)
    have "strip (CHR ''-'' # ?ds) = CHR ''-'' # ?ds"
      using sp l nat_digits_nonempty [of "nat \<bar>i\<bar>"]
      by (intro strip_no_space) (simp_all add: digit_not_space)
    with True show ?thesis
      unfolding e by (simp add: py_int_def parse_unsigned_nat_digits)
  next
    case False
    then have e: "str_int i = ?ds"
      by (simp add: str_int_def abs_if)
    have "strip ?ds = ?ds"
      using c l s by (intro strip_no_space) (simp_all add: digit_not_space)
    then have "py_int ?ds = map_option int (parse_unsigned ?ds)"
      using s cm by (simp add: py_int_def)
    with False show ?thesis
      unfolding e by (simp add: parse_unsigned_nat_digits)
  qed
qed

lemma get_avatar_url_int_identifier:
  "get_avatar_url (QQInt i) False sz =
     Inr (normal_url_template (if i mod 2 = 0 then ''1'' else ''2'') (str_int i) (min sz 140))"
  by (simp add: get_avatar_url_normal py_int_str_int)

text \<open>
  C1.  The size is clamped before it is put into the URL.  With the high-definition interface
  every size above 640 gives a URL with \<open>spec=640\<close>.  With the normal interface every size
  above 140 gives, whenever a URL is returned at all, a URL with \<open>s=140\<close>; no URL is returned
  only when the identifier is not an integer.
\<close>

theorem get_avatar_url_clamps:
  "(640 < sz \<longrightarrow>
      get_avatar_url qq True sz =
        Inr (''http://q.qlogo.cn/headimg_dl?dst_uin='' @ py_str qq @ ''&spec=640&img_type=jpg''))
   \<and> (140 < sz \<longrightarrow>
        (case get_avatar_url qq False sz of
           Inr url \<Rightarrow>
             url = ''http://q1.qlogo.cn/g?b=qq&nk='' @ py_str qq @ ''&s=140''
             \<or> url = ''http://q2.qlogo.cn/g?b=qq&nk='' @ py_str qq @ ''&s=140''
         | Inl e \<Rightarrow> py_int (py_str qq) = None))"
proof (intro conjI impI)
  assume "640 < sz"
  then have "min sz 640 = 640" by simp
  then show "get_avatar_url qq True sz =
      Inr (''http://q.qlogo.cn/headimg_dl?dst_uin='' @ py_str qq @ ''&spec=640&img_type=jpg'')"
    by (simp add: get_avatar_url_hd hd_url_template_def str_int_640)
next
  assume "140 < sz"
  then have "min sz 140 = 140" by simp
  then show "case get_avatar_url qq False sz of
      Inr url \<Rightarrow>
        url = ''http://q1.qlogo.cn/g?b=qq&nk='' @ py_str qq @ ''&s=140''
        \<or> url = ''http://q2.qlogo.cn/g?b=qq&nk='' @ py_str qq @ ''&s=140''
    | Inl e \<Rightarrow> py_int (py_str qq) = None"
    by (simp add: get_avatar_url_normal normal_url_template_def str_int_140
          split: option.splits)
qed

theorem get_avatar_url_clamps_witness:
  "(640::int) < 1000
   \<and> get_avatar_url (QQStr ''10001'') True 1000 =
       Inr ''http://q.qlogo.cn/headimg_dl?dst_uin=10001&spec=640&img_type=jpg''
   \<and> (140::int) < 200
   \<and> get_avatar_url (QQStr ''10001'') False 200 = Inr ''http://q2.qlogo.cn/g?b=qq&nk=10001&s=140''"
  using get_avatar_url_clamps [of 1000 "QQStr ''10001''"]
    get_avatar_url_clamps [of 200 "QQStr ''10001''"]
  by (simp add: url_eval)

text \<open>
  C2.  With the normal interface an identifier that parses as the integer \<open>n\<close> is served by
  server 1 when \<open>n\<close> is even and by server 2 when \<open>n\<close> is odd, and the URL is
  \<open>http://q{server}.qlogo.cn/g?b=qq&nk={identifier}&s={size}\<close> with the size clamped to 140.
\<close>

theorem get_avatar_url_server_parity:
  assumes "py_int (py_str qq) = Some n"
  shows "get_avatar_url qq False sz =
           Inr (''http://q'' @ (if even n then ''1'' else ''2'') @ ''.qlogo.cn/g?b=qq&nk=''
                @ py_str qq @ ''&s='' @ str_int (min sz 140))"
  using assms
  by (simp add: get_avatar_url_normal normal_url_template_def even_iff_mod_2_eq_zero)

theorem get_avatar_url_server_parity_witness:
  "py_int (py_str (QQStr ''10002'')) = Some 10002
   \<and> get_avatar_url (QQStr ''10002'') False 100 = Inr ''http://q1.qlogo.cn/g?b=qq&nk=10002&s=100''
   \<and> py_int (py_str (QQStr ''10001'')) = Some 10001
   \<and> get_avatar_url (QQStr ''10001'') False 200 = Inr ''http://q2.qlogo.cn/g?b=qq&nk=10001&s=140''"
proof -
  have e: "py_int (py_str (QQStr ''10002'')) = Some 10002"
    by (simp add: url_eval)
  have o: "py_int (py_str (QQStr ''10001'')) = Some 10001"
    by (simp add: url_eval)
  show ?thesis
    using e o get_avatar_url_server_parity [OF e, of 100]
      get_avatar_url_server_parity [OF o, of 200]
    by (simp add: str_int_def nat_digits.simps)
qed

text \<open>
  C3.  \<open>get_avatar_url\<close> fails exactly when the normal interface is asked for an identifier
  that \<open>int\<close> rejects, and the failure is the \<open>ValueError\<close> of \<open>int\<close>.  The high-definition
  interface returns a URL for every identifier.
\<close>

theorem get_avatar_url_fails_iff:
  "((\<exists>e. get_avatar_url qq hd_flag sz = Inl e) \<longleftrightarrow> \<not> hd_flag \<and> py_int (py_str qq) = None)
   \<and> (\<forall>e. get_avatar_url qq hd_flag sz = Inl e \<longrightarrow> e = ValueError)
   \<and> (\<exists>url. get_avatar_url qq True sz = Inr url)"
  by (cases hd_flag) (auto simp: get_avatar_url_hd get_avatar_url_normal split: option.splits)

theorem get_avatar_url_fails_iff_witness:
  "get_avatar_url (QQStr ''12a'') False 100 = Inl ValueError
   \<and> py_int (py_str (QQStr ''12a'')) = None
   \<and> get_avatar_url (QQStr ''12a'') True 100 =
       Inr ''http://q.qlogo.cn/headimg_dl?dst_uin=12a&spec=100&img_type=jpg''"
proof -
  have n: "py_int (py_str (QQStr ''12a'')) = None"
    by (simp add: url_eval)
  from n get_avatar_url_fails_iff [of "QQStr ''12a''" False 100]
  have "get_avatar_url (QQStr ''12a'') False 100 = Inl ValueError"
    by auto
  with n show ?thesis
    by (simp add: get_avatar_url_hd hd_url_template_def str_int_def nat_digits.simps)
qed

text \<open>
  C8.  The scenario of the specification:
  \<open>get_avatar_url("123456789", hd=True, size=640)\<close>.
\<close>

theorem get_avatar_url_scenario_hd:
  "get_avatar_url (QQStr ''123456789'') True 640 =
     Inr ''http://q.qlogo.cn/headimg_dl?dst_uin=123456789&spec=640&img_type=jpg''"
  by (simp add: get_avatar_url_hd hd_url_template_def str_int_640)

text \<open>
  C10.  There is no lower bound on the size: a size that does not exceed the maximum of the
  interface, zero and negative sizes included, is written into the URL as it is.
\<close>

theorem get_avatar_url_no_lower_bound:
  "(sz \<le> 640 \<longrightarrow>
      get_avatar_url qq True sz =
        Inr (''http://q.qlogo.cn/headimg_dl?dst_uin='' @ py_str qq @ ''&spec='' @ str_int sz
             @ ''&img_type=jpg''))
   \<and> (sz \<le> 140 \<longrightarrow> py_int (py_str qq) = Some n \<longrightarrow>
        get_avatar_url qq False sz =
          Inr (''http://q'' @ (if even n then ''1'' else ''2'') @ ''.qlogo.cn/g?b=qq&nk=''
               @ py_str qq @ ''&s='' @ str_int sz))"
  by (simp add: get_avatar_url_hd get_avatar_url_normal hd_url_template_def
        normal_url_template_def min_def even_iff_mod_2_eq_zero)

theorem get_avatar_url_no_lower_bound_witness:
  "(0::int) \<le> 640
   \<and> get_avatar_url (QQStr ''10001'') True 0 =
       Inr ''http://q.qlogo.cn/headimg_dl?dst_uin=10001&spec=0&img_type=jpg''
   \<and> (- 5::int) \<le> 140
   \<and> py_int (py_str (QQStr ''10002'')) = Some 10002
   \<and> get_avatar_url (QQStr ''10002'') False (- 5) = Inr ''http://q1.qlogo.cn/g?b=qq&nk=10002&s=-5''"
proof -
  have e: "py_int (py_str (QQStr ''10002'')) = Some 10002"
    by (simp add: url_eval)
  show ?thesis
    using e get_avatar_url_no_lower_bound [of 0 "QQStr ''10001''" 10002]
      get_avatar_url_no_lower_bound [of "- 5" "QQStr ''10002''" 10002]
    by (simp add: str_int_def nat_digits.simps)
qed

section \<open>Properties of downloading\<close>

lemma get_urls_append: "get_urls (xs @ ys) = get_urls xs @ get_urls ys"
  by (induction xs rule: get_urls.induct) simp_all

lemma get_urls_no_http: "\<forall>c\<in>set cs. \<not> is_http c \<Longrightarrow> get_urls cs = []"
  by (induction cs rule: get_urls.induct) simp_all


lemma print_outcome:
  "(\<exists>e. print E m w = (Some e, w))
   \<or> print E m w = (None, w\<lparr>printed := printed w @ [m]\<rparr>)"
  by (simp add: print_def split: option.splits)

lemma print_accepted:
  "stdout_write E (calls w) (printed w) m = None \<Longrightarrow>
     print E m w = (None, w\<lparr>printed := printed w @ [m]\<rparr>)"
  by (simp add: print_def)

lemma download_try_effects:
  "\<exists>r fs ms w'.
     download_try E w url p = (r, w')
     \<and> calls w' = calls w @ HttpGet url 10 # fs
     \<and> (\<forall>c\<in>set fs. \<not> is_http c)
     \<and> printed w' = printed w @ ms
     \<and> (\<forall>m\<in>set ms. is_saved m)
     \<and> (ms = [] \<or> r = Inr ())"
  by (auto simp: download_try_def log_call_def print_def Let_def
        split: sum.splits option.splits)

lemma download_avatar_raises:
  assumes "get_avatar_url qq hd_flag sz = Inl e"
  shows "download_avatar E w qq save_path hd_flag sz = (Inl e, w)"
  using assms by (simp add: download_avatar_def)

lemma failure_line_kind:
  "\<not> is_saved (failure_line e)" "\<not> is_progress (failure_line e)"
  "\<not> is_batch_done (failure_line e)"
  by (simp_all add: failure_line_def)

lemma saved_kind: "is_saved m \<Longrightarrow> \<not> is_progress m \<and> \<not> is_batch_done m"
  by (cases m) simp_all

lemma download_avatar_effects:
  assumes "get_avatar_url qq hd_flag sz = Inr url"
  shows "\<exists>r fs ms w'.
           download_avatar E w qq save_path hd_flag sz = (r, w')
           \<and> calls w' = calls w @ HttpGet url 10 # fs
           \<and> (\<forall>c\<in>set fs. \<not> is_http c)
           \<and> printed w' = printed w @ ms
           \<and> (\<forall>m\<in>set ms. \<not> is_progress m \<and> \<not> is_batch_done m)"
proof -
  define p where "p = (case save_path of
      None \<Rightarrow> ''qq_'' @ py_str qq @ (if hd_flag then ''_hd.jpg'' else ''.png'')
    | Some given \<Rightarrow> given)"
  have steps: "download_avatar E w qq save_path hd_flag sz =
      (case download_try E w url p of
         (Inr u, w') \<Rightarrow> (Inr True, w')
       | (Inl e, w') \<Rightarrow>
           (case print E (failure_line e) w' of
              (Some e', w'') \<Rightarrow> (Inl e', w'')
            | (None, w'') \<Rightarrow> (Inr False, w'')))"
    using assms unfolding p_def
    by (cases save_path) (simp_all add: download_avatar_def Let_def)
  from download_try_effects [of E w url p]
  obtain r fs ms w1 where
    t: "download_try E w url p = (r, w1)"
    and c: "calls w1 = calls w @ HttpGet url 10 # fs"
    and fs: "\<forall>c\<in>set fs. \<not> is_http c"
    and pr: "printed w1 = printed w @ ms"
    and ms: "\<forall>m\<in>set ms. is_saved m"
    by blast
  show ?thesis
  proof (cases r)
    case (Inr u)
    with t have "download_avatar E w qq save_path hd_flag sz = (Inr True, w1)"
      by (simp add: steps)
    with c fs pr ms show ?thesis
      by (auto dest: saved_kind)
  next
    case (Inl e)
    from print_outcome [of E "failure_line e" w1]
    show ?thesis
    proof
      assume "\<exists>e'. print E (failure_line e) w1 = (Some e', w1)"
      then obtain e' where "print E (failure_line e) w1 = (Some e', w1)" ..
      with t Inl have "download_avatar E w qq save_path hd_flag sz = (Inl e', w1)"
        by (simp add: steps)
      with c fs pr ms show ?thesis
        by (auto dest: saved_kind)
    next
      let ?w2 = "w1\<lparr>printed := printed w1 @ [failure_line e]\<rparr>"
      assume "print E (failure_line e) w1 = (None, ?w2)"
      with t Inl have "download_avatar E w qq save_path hd_flag sz = (Inr False, ?w2)"
        by (simp add: steps)
      moreover have "calls ?w2 = calls w @ HttpGet url 10 # fs"
        using c by simp
      moreover have "printed ?w2 = printed w @ (ms @ [failure_line e])"
        using pr by simp
      moreover have "\<forall>m\<in>set (ms @ [failure_line e]). \<not> is_progress m \<and> \<not> is_batch_done m"
        using ms by (auto dest: saved_kind simp: failure_line_kind)
      ultimately show ?thesis
        using fs by blast
    qed
  qed
qed

lemma download_avatar_returns:
  assumes url: "get_avatar_url qq hd_flag sz = Inr url"
    and out: "\<And>cs ps m. stdout_write E cs ps m = None"
  shows "\<exists>ok fs m w'.
           download_avatar E w qq save_path hd_flag sz = (Inr ok, w')
           \<and> calls w' = calls w @ HttpGet url 10 # fs
           \<and> (\<forall>c\<in>set fs. \<not> is_http c)
           \<and> printed w' = printed w @ [m]
           \<and> (is_saved m \<longleftrightarrow> ok) \<and> \<not> is_progress m \<and> \<not> is_batch_done m"
  using url
  by (auto simp: download_avatar_def download_try_def log_call_def print_def Let_def out
        failure_line_def split: sum.splits option.splits)

lemma download_avatar_no_summary:
  "filter is_batch_done (printed (snd (download_avatar E w qq save_path hd_flag sz))) =
     filter is_batch_done (printed w)"
proof (cases "get_avatar_url qq hd_flag sz")
  case (Inl e)
  then show ?thesis
    by (simp add: download_avatar_raises)
next
  case (Inr url)
  from download_avatar_effects [OF Inr, of E w save_path]
  obtain r fs ms w' where
    "download_avatar E w qq save_path hd_flag sz = (r, w')"
    and "printed w' = printed w @ ms"
    and "\<forall>m\<in>set ms. \<not> is_progress m \<and> \<not> is_batch_done m"
    by blast
  then show ?thesis
    by simp
qed

lemma saved_le_non_progress:
  "length (filter is_saved ms) + length (filter is_progress ms) \<le> length ms"
proof (induction ms)
  case Nil
  then show ?case by simp
next
  case (Cons m ms)
  then show ?case by (cases m) simp_all
qed

lemma batch_loop_completes:
  assumes built: "\<forall>qq\<in>set qs. \<exists>url. get_avatar_url qq hd_flag sz = Inr url"
    and out: "\<And>cs ps m. stdout_write E cs ps m = None"
  shows "\<exists>ms w'.
           batch_loop E n od hd_flag sz qs i c w = (Inr (c + length (filter is_saved ms)), w')
           \<and> printed w' = printed w @ ms
           \<and> filter is_batch_done ms = []
           \<and> length ms = 2 * length qs
           \<and> filter is_progress ms = map (\<lambda>(j, qq). Progress j n qq) (zip [i..<i + length qs] qs)
           \<and> map Inr (get_urls (calls w')) =
               map Inr (get_urls (calls w)) @ map (\<lambda>qq. get_avatar_url qq hd_flag sz) qs"
  using built
proof (induction qs arbitrary: i c w)
  case Nil
  then show ?case by simp
next
  case (Cons qq rest)
  let ?w1 = "w\<lparr>printed := printed w @ [Progress i n qq]\<rparr>"
  let ?p = "os_path_join E od (py_str qq @ (if hd_flag then ''_hd.jpg'' else ''.png''))"
  have pr1: "print E (Progress i n qq) w = (None, ?w1)"
    by (rule print_accepted) (rule out)
  from Cons.prems obtain url where url: "get_avatar_url qq hd_flag sz = Inr url"
    by auto
  from download_avatar_returns [OF url out, of ?w1 "Some ?p"]
  obtain ok fs m w2 where
    d: "download_avatar E ?w1 qq (Some ?p) hd_flag sz = (Inr ok, w2)"
    and c2: "calls w2 = calls ?w1 @ HttpGet url 10 # fs"
    and fs: "\<forall>c\<in>set fs. \<not> is_http c"
    and p2: "printed w2 = printed ?w1 @ [m]"
    and m: "is_saved m \<longleftrightarrow> ok" "\<not> is_progress m" "\<not> is_batch_done m"
    by blast
  from Cons.prems have rest: "\<forall>qq\<in>set rest. \<exists>url. get_avatar_url qq hd_flag sz = Inr url"
    by simp
  from Cons.IH [OF rest, of "i + 1" "if ok then c + 1 else c" w2]
  obtain ms w' where
    l: "batch_loop E n od hd_flag sz rest (i + 1) (if ok then c + 1 else c) w2 =
          (Inr ((if ok then c + 1 else c) + length (filter is_saved ms)), w')"
    and p': "printed w' = printed w2 @ ms"
    and nd: "filter is_batch_done ms = []"
    and len: "length ms = 2 * length rest"
    and pr: "filter is_progress ms =
               map (\<lambda>(j, qq). Progress j n qq) (zip [i + 1..<i + 1 + length rest] rest)"
    and u': "map Inr (get_urls (calls w')) =
               map Inr (get_urls (calls w2)) @ map (\<lambda>qq. get_avatar_url qq hd_flag sz) rest"
    by blast
  let ?ms = "Progress i n qq # m # ms"
  have run: "batch_loop E n od hd_flag sz (qq # rest) i c w =
               (Inr (c + length (filter is_saved ?ms)), w')"
    using pr1 d l m(1) by (simp add: Let_def)
  have pw: "printed w' = printed w @ ?ms"
    using p' p2 by simp
  have upt: "[i..<i + length (qq # rest)] = i # [i + 1..<i + 1 + length rest]"
  proof -
    have a: "[i..<i + length (qq # rest)] = i # [Suc i..<i + length (qq # rest)]"
      by (rule upt_conv_Cons) simp
    show ?thesis unfolding a by simp
  qed
  have prog: "filter is_progress ?ms =
                map (\<lambda>(j, qq). Progress j n qq) (zip [i..<i + length (qq # rest)] (qq # rest))"
    unfolding upt using pr m(2) by simp
  have "get_urls (calls w2) = get_urls (calls w) @ [url]"
    using c2 fs by (simp add: get_urls_append get_urls_no_http)
  then have urls: "map Inr (get_urls (calls w')) =
      map Inr (get_urls (calls w)) @ map (\<lambda>qq. get_avatar_url qq hd_flag sz) (qq # rest)"
    using u' url by simp
  have "filter is_batch_done ?ms = []"
    using nd m(3) by simp
  moreover have "length ?ms = 2 * length (qq # rest)"
    using len by simp
  ultimately show ?case
    using run pw prog urls by blast
qed

lemma batch_loop_aborts:
  assumes built: "\<forall>p\<in>set pre. \<exists>url. get_avatar_url p hd_flag sz = Inr url"
    and bad: "get_avatar_url qq hd_flag sz = Inl e"
    and out: "\<And>cs ps m. stdout_write E cs ps m = None"
  shows "\<exists>w'.
           batch_loop E n od hd_flag sz (pre @ qq # rest) i c w = (Inl e, w')
           \<and> map Inr (get_urls (calls w')) =
               map Inr (get_urls (calls w)) @ map (\<lambda>p. get_avatar_url p hd_flag sz) pre"
  using built
proof (induction pre arbitrary: i c w)
  case Nil
  let ?w1 = "w\<lparr>printed := printed w @ [Progress i n qq]\<rparr>"
  have "print E (Progress i n qq) w = (None, ?w1)"
    by (rule print_accepted) (rule out)
  then have "batch_loop E n od hd_flag sz (qq # rest) i c w = (Inl e, ?w1)"
    using bad by (simp add: Let_def download_avatar_raises)
  then show ?case
    by simp
next
  case (Cons p pre)
  let ?w1 = "w\<lparr>printed := printed w @ [Progress i n p]\<rparr>"
  let ?p = "os_path_join E od (py_str p @ (if hd_flag then ''_hd.jpg'' else ''.png''))"
  have pr1: "print E (Progress i n p) w = (None, ?w1)"
    by (rule print_accepted) (rule out)
  from Cons.prems obtain url where url: "get_avatar_url p hd_flag sz = Inr url"
    by auto
  from download_avatar_returns [OF url out, of ?w1 "Some ?p"]
  obtain ok fs m w2 where
    d: "download_avatar E ?w1 p (Some ?p) hd_flag sz = (Inr ok, w2)"
    and c2: "calls w2 = calls ?w1 @ HttpGet url 10 # fs"
    and fs: "\<forall>c\<in>set fs. \<not> is_http c"
    by blast
  from Cons.prems have pre: "\<forall>p\<in>set pre. \<exists>url. get_avatar_url p hd_flag sz = Inr url"
    by simp
  from Cons.IH [OF pre, of "i + 1" "if ok then c + 1 else c" w2]
  obtain w' where
    l: "batch_loop E n od hd_flag sz (pre @ qq # rest) (i + 1) (if ok then c + 1 else c) w2 =
          (Inl e, w')"
    and u': "map Inr (get_urls (calls w')) =
               map Inr (get_urls (calls w2)) @ map (\<lambda>p. get_avatar_url p hd_flag sz) pre"
    by blast
  have run: "batch_loop E n od hd_flag sz ((p # pre) @ qq # rest) i c w = (Inl e, w')"
    using pr1 d l by (simp add: Let_def)
  have "get_urls (calls w2) = get_urls (calls w) @ [url]"
    using c2 fs by (simp add: get_urls_append get_urls_no_http)
  then have urls: "map Inr (get_urls (calls w')) =
      map Inr (get_urls (calls w)) @ map (\<lambda>p. get_avatar_url p hd_flag sz) (p # pre)"
    using u' url by simp
  with run show ?case
    by blast
qed

lemma batch_loop_no_summary:
  "filter is_batch_done (printed (snd (batch_loop E n od hd_flag sz qs i c w))) =
     filter is_batch_done (printed w)"
proof (induction qs arbitrary: i c w)
  case Nil
  then show ?case by simp
next
  case (Cons qq rest)
  let ?p = "os_path_join E od (py_str qq @ (if hd_flag then ''_hd.jpg'' else ''.png''))"
  from print_outcome [of E "Progress i n qq" w]
  show ?case
  proof
    assume "\<exists>e. print E (Progress i n qq) w = (Some e, w)"
    then show ?thesis
      by auto
  next
    let ?w1 = "w\<lparr>printed := printed w @ [Progress i n qq]\<rparr>"
    assume pr1: "print E (Progress i n qq) w = (None, ?w1)"
    obtain r w2 where d: "download_avatar E ?w1 qq (Some ?p) hd_flag sz = (r, w2)"
      by (cases "download_avatar E ?w1 qq (Some ?p) hd_flag sz") blast
    from download_avatar_no_summary [of E ?w1 qq "Some ?p" hd_flag sz] d
    have n2: "filter is_batch_done (printed w2) = filter is_batch_done (printed w)"
      by simp
    show ?thesis
    proof (cases r)
      case (Inl e)
      with pr1 d n2 show ?thesis
        by (simp add: Let_def)
    next
      case (Inr ok)
      with pr1 d n2 Cons.IH [of "i + 1" "if ok then c + 1 else c" w2] show ?thesis
        by (simp add: Let_def)
    qed
  qed
qed

lemma batch_loop_bad_raises:
  assumes "\<exists>qq\<in>set qs. \<exists>e. get_avatar_url qq hd_flag sz = Inl e"
  shows "\<exists>e w'. batch_loop E n od hd_flag sz qs i c w = (Inl e, w')"
  using assms
proof (induction qs arbitrary: i c w)
  case Nil
  then show ?case by simp
next
  case (Cons qq rest)
  let ?p = "os_path_join E od (py_str qq @ (if hd_flag then ''_hd.jpg'' else ''.png''))"
  from print_outcome [of E "Progress i n qq" w]
  show ?case
  proof
    assume "\<exists>e. print E (Progress i n qq) w = (Some e, w)"
    then show ?thesis
      by auto
  next
    let ?w1 = "w\<lparr>printed := printed w @ [Progress i n qq]\<rparr>"
    assume pr1: "print E (Progress i n qq) w = (None, ?w1)"
    obtain r w2 where d: "download_avatar E ?w1 qq (Some ?p) hd_flag sz = (r, w2)"
      by (cases "download_avatar E ?w1 qq (Some ?p) hd_flag sz") blast
    show ?thesis
    proof (cases r)
      case (Inl e)
      with pr1 d show ?thesis
        by (simp add: Let_def)
    next
      case (Inr ok)
      with d have "\<not> (\<exists>e. get_avatar_url qq hd_flag sz = Inl e)"
        by (auto simp: download_avatar_raises)
      with Cons.prems have "\<exists>qq\<in>set rest. \<exists>e. get_avatar_url qq hd_flag sz = Inl e"
        by auto
      from Cons.IH [OF this, of "i + 1" "if ok then c + 1 else c" w2] pr1 d Inr
      show ?thesis
        by (simp add: Let_def)
    qed
  qed
qed

lemmas io_eval =
  download_avatar_def download_try_def check_avatar_exists_def batch_download_def
  log_call_def print_def raise_for_status_def failure_line_def Let_def
  sample_env_def ascii_stdout_def scripted_def world0_def ok_response_def

lemma url_built_iff:
  "(\<exists>url. get_avatar_url qq hd_flag sz = Inr url) \<longleftrightarrow> hd_flag \<or> py_int (py_str qq) \<noteq> None"
  by (cases hd_flag) (auto simp: get_avatar_url_hd get_avatar_url_normal split: option.splits)

lemma check_avatar_exists_probe:
  assumes "get_avatar_url qq hd_flag 640 = Inr url"
  shows "check_avatar_exists E w qq hd_flag =
           (Inr (case requests_head E (calls w) url 5 of
                   Inl e \<Rightarrow> False
                 | Inr resp \<Rightarrow> status_code resp = 200),
            log_call (HttpHead url 5) w)"
  using assms by (simp add: check_avatar_exists_def Let_def split: sum.splits)

text \<open>
  C4.  \<open>check_avatar_exists\<close> builds the URL before its \<open>try\<close>.  Asked for the normal
  interface with an identifier that is not an integer, it raises \<open>ValueError\<close> to the caller:
  no request is made and no boolean is returned.
\<close>

theorem check_avatar_exists_raises:
  "check_avatar_exists E w (QQStr ''abc'') False = (Inl ValueError, w)"
proof -
  have "py_int (py_str (QQStr ''abc'')) = None"
    by (simp add: url_eval)
  then show ?thesis
    by (simp add: check_avatar_exists_def get_avatar_url_normal)
qed




text \<open>
  C7, as amended.  Called without \<open>save_path\<close>, \<open>download_avatar\<close> behaves as if it had been
  given the relative path \<open>qq_{qq}{suffix}\<close>, with the suffix \<open>_hd.jpg\<close> for the
  high-definition interface and \<open>.png\<close> for the normal one; a successful call ends by writing
  that file.  The path is relative, so the operating system resolves it against the current
  working directory.
\<close>

theorem download_avatar_default_path:
  "download_avatar E w qq None hd_flag sz =
     download_avatar E w qq
       (Some (''qq_'' @ py_str qq @ (if hd_flag then ''_hd.jpg'' else ''.png''))) hd_flag sz
   \<and> (download_avatar E w qq None hd_flag sz = (Inr True, w') \<longrightarrow>
        (\<exists>body.
           last (calls w') =
             WriteFile (''qq_'' @ py_str qq @ (if hd_flag then ''_hd.jpg'' else ''.png'')) body
           \<and> last (printed w') =
               Saved (''qq_'' @ py_str qq @ (if hd_flag then ''_hd.jpg'' else ''.png''))
                 (length body)))"
proof (intro conjI impI)
  show "download_avatar E w qq None hd_flag sz =
     download_avatar E w qq
       (Some (''qq_'' @ py_str qq @ (if hd_flag then ''_hd.jpg'' else ''.png''))) hd_flag sz"
    by (simp add: download_avatar_def Let_def split: sum.splits)
next
  assume "download_avatar E w qq None hd_flag sz = (Inr True, w')"
  then show "\<exists>body.
           last (calls w') =
             WriteFile (''qq_'' @ py_str qq @ (if hd_flag then ''_hd.jpg'' else ''.png'')) body
           \<and> last (printed w') =
               Saved (''qq_'' @ py_str qq @ (if hd_flag then ''_hd.jpg'' else ''.png''))
                 (length body)"
    by (auto simp: download_avatar_def download_try_def log_call_def print_def Let_def
          split: sum.splits option.splits if_splits)
qed

theorem download_avatar_default_path_witness:
  "download_avatar (sample_env [ok_response [1, 2, 3]]) world0 (QQStr ''10001'') None False 100 =
     (Inr True,
      \<lparr>calls = [HttpGet ''http://q2.qlogo.cn/g?b=qq&nk=10001&s=100'' 10,
                Makedirs ''/home/user'' True,
                WriteFile ''qq_10001.png'' [1, 2, 3]],
       printed = [Saved ''qq_10001.png'' 3]\<rparr>)
   \<and> (\<exists>body.
         last [HttpGet ''http://q2.qlogo.cn/g?b=qq&nk=10001&s=100'' 10,
               Makedirs ''/home/user'' True,
               WriteFile ''qq_10001.png'' [1, 2, 3]] = WriteFile ''qq_10001.png'' body)"
proof -
  have r: "download_avatar (sample_env [ok_response [1, 2, 3]]) world0 (QQStr ''10001'') None
             False 100 =
     (Inr True,
      \<lparr>calls = [HttpGet ''http://q2.qlogo.cn/g?b=qq&nk=10001&s=100'' 10,
                Makedirs ''/home/user'' True,
                WriteFile ''qq_10001.png'' [1, 2, 3]],
       printed = [Saved ''qq_10001.png'' 3]\<rparr>)"
    by (simp add: io_eval url_eval)
  from download_avatar_default_path [of "sample_env [ok_response [1, 2, 3]]" world0
      "QQStr ''10001''" False 100] r
  show ?thesis
    by auto
qed

text \<open>C7 as stated fails: the default file name starts with \<open>qq_\<close>, not with \<open>avatar_\<close>.\<close>

theorem download_avatar_default_path_counterexample:
  "last (calls (snd (download_avatar (sample_env [ok_response [1, 2, 3]]) world0
                       (QQStr ''10001'') None True 640))) =
     WriteFile ''qq_10001_hd.jpg'' [1, 2, 3]
   \<and> ''qq_10001_hd.jpg'' \<noteq> ''avatar_10001_hd.jpg''
   \<and> last (calls (snd (download_avatar (sample_env [ok_response [1, 2, 3]]) world0
                         (QQStr ''10001'') None False 100))) =
       WriteFile ''qq_10001.png'' [1, 2, 3]
   \<and> ''qq_10001.png'' \<noteq> ''avatar_10001.png''"
  by (simp add: io_eval url_eval)

lemma batch_download_unfold:
  "\<exists>w2. printed w2 = printed w \<and> get_urls (calls w2) = get_urls (calls w)
     \<and> ((\<exists>e. \<not> os_path_exists E (calls w) output_dir
              \<and> os_makedirs E (calls w @ [PathExists output_dir]) output_dir False = Some e
              \<and> batch_download E w qq_list output_dir hd_flag sz = (Inl e, w2))
          \<or> ((os_path_exists E (calls w) output_dir
               \<or> os_makedirs E (calls w @ [PathExists output_dir]) output_dir False = None)
              \<and> batch_download E w qq_list output_dir hd_flag sz =
                  (case print E (BatchStart (length qq_list)) w2 of
                     (Some e, w3) \<Rightarrow> (Inl e, w3)
                   | (None, w3) \<Rightarrow>
                       (case batch_loop E (length qq_list) output_dir hd_flag sz qq_list 1 0 w3 of
                          (Inl e, w4) \<Rightarrow> (Inl e, w4)
                        | (Inr success_count, w4) \<Rightarrow>
                            (case print E (BatchDone success_count (length qq_list)) w4 of
                               (Some e, w5) \<Rightarrow> (Inl e, w5)
                             | (None, w5) \<Rightarrow> (Inr (), w5))))))"
proof (cases "os_path_exists E (calls w) output_dir")
  case True
  then show ?thesis
    by (intro exI [of _ "log_call (PathExists output_dir) w"])
      (simp add: batch_download_def log_call_def Let_def get_urls_append)
next
  case False
  then show ?thesis
    by (intro exI [of _ "log_call (Makedirs output_dir False)
                           (log_call (PathExists output_dir) w)"])
      (cases "os_makedirs E (calls w @ [PathExists output_dir]) output_dir False";
       simp add: batch_download_def log_call_def Let_def get_urls_append)
qed

text \<open>
  C6, as amended.  Let every URL of the batch be constructible (the high-definition interface,
  or identifiers that are all integers), let the output directory exist or be creatable, and
  let the standard output take every line.  Then \<open>batch_download\<close> runs to its end: it requests
  the URL of every identifier once, in the order of the list, whatever the single downloads do;
  it prints one progress line for each identifier, numbered from 1; and it ends by printing the
  summary line with the number of successful downloads (one \<open>Saved\<close> line each) out of
  \<open>len(qq_list)\<close>.  The summary is printed: the function returns \<open>None\<close>.
\<close>

theorem batch_download_processes_all:
  assumes urls: "hd_flag \<or> (\<forall>qq\<in>set qq_list. py_int (py_str qq) \<noteq> None)"
    and dir: "os_path_exists E (calls w) output_dir
              \<or> os_makedirs E (calls w @ [PathExists output_dir]) output_dir False = None"
    and out: "\<And>cs ps m. stdout_write E cs ps m = None"
  shows "\<exists>ms w'.
           batch_download E w qq_list output_dir hd_flag sz = (Inr (), w')
           \<and> map Inr (get_urls (calls w')) =
               map Inr (get_urls (calls w)) @ map (\<lambda>qq. get_avatar_url qq hd_flag sz) qq_list
           \<and> printed w' =
               printed w @ BatchStart (length qq_list) # ms
                 @ [BatchDone (length (filter is_saved ms)) (length qq_list)]
           \<and> filter is_progress ms =
               map (\<lambda>(i, qq). Progress i (length qq_list) qq)
                 (zip [1..<1 + length qq_list] qq_list)
           \<and> length (filter is_saved ms) \<le> length qq_list"
proof -
  let ?n = "length qq_list"
  from urls have built: "\<forall>qq\<in>set qq_list. \<exists>url. get_avatar_url qq hd_flag sz = Inr url"
    by (auto simp: url_built_iff)
  from batch_download_unfold [of w E output_dir qq_list hd_flag sz] dir
  obtain w2 where
    p2: "printed w2 = printed w"
    and u2: "get_urls (calls w2) = get_urls (calls w)"
    and run: "batch_download E w qq_list output_dir hd_flag sz =
                (case print E (BatchStart ?n) w2 of
                   (Some e, w3) \<Rightarrow> (Inl e, w3)
                 | (None, w3) \<Rightarrow>
                     (case batch_loop E ?n output_dir hd_flag sz qq_list 1 0 w3 of
                        (Inl e, w4) \<Rightarrow> (Inl e, w4)
                      | (Inr success_count, w4) \<Rightarrow>
                          (case print E (BatchDone success_count ?n) w4 of
                             (Some e, w5) \<Rightarrow> (Inl e, w5)
                           | (None, w5) \<Rightarrow> (Inr (), w5))))"
    by auto
  let ?w3 = "w2\<lparr>printed := printed w2 @ [BatchStart ?n]\<rparr>"
  have s: "print E (BatchStart ?n) w2 = (None, ?w3)"
    by (rule print_accepted) (rule out)
  from batch_loop_completes [OF built out, of ?n output_dir 1 0 ?w3]
  obtain ms w4 where
    l: "batch_loop E ?n output_dir hd_flag sz qq_list 1 0 ?w3 =
          (Inr (0 + length (filter is_saved ms)), w4)"
    and p4: "printed w4 = printed ?w3 @ ms"
    and len: "length ms = 2 * ?n"
    and pr: "filter is_progress ms =
               map (\<lambda>(j, qq). Progress j ?n qq) (zip [1..<1 + ?n] qq_list)"
    and u4: "map Inr (get_urls (calls w4)) =
               map Inr (get_urls (calls ?w3)) @ map (\<lambda>qq. get_avatar_url qq hd_flag sz) qq_list"
    by blast
  let ?w' = "w4\<lparr>printed := printed w4 @ [BatchDone (length (filter is_saved ms)) ?n]\<rparr>"
  have f: "print E (BatchDone (length (filter is_saved ms)) ?n) w4 = (None, ?w')"
    by (rule print_accepted) (rule out)
  have r: "batch_download E w qq_list output_dir hd_flag sz = (Inr (), ?w')"
    using run s l f by simp
  have u: "map Inr (get_urls (calls ?w')) =
             map Inr (get_urls (calls w)) @ map (\<lambda>qq. get_avatar_url qq hd_flag sz) qq_list"
    using u4 u2 by simp
  have p: "printed ?w' =
             printed w @ BatchStart ?n # ms @ [BatchDone (length (filter is_saved ms)) ?n]"
    using p4 p2 by simp
  have "length (zip [1..<1 + ?n] qq_list) = ?n"
    by (simp only: length_zip length_upt)
  then have "length (filter is_progress ms) = ?n"
    unfolding pr by (simp only: length_map)
  with saved_le_non_progress [of ms] len have bound: "length (filter is_saved ms) \<le> ?n"
    by simp
  from r u p pr bound show ?thesis
    by blast
qed

theorem batch_download_processes_all_witness:
  "os_makedirs (sample_env [ok_response [1], Inl Timeout, ok_response [2, 3]])
     (calls world0 @ [PathExists ''avatars'']) ''avatars'' False = None
   \<and> stdout_write (sample_env [ok_response [1], Inl Timeout, ok_response [2, 3]]) [] []
       (BatchStart 3) = None
   \<and> batch_download (sample_env [ok_response [1], Inl Timeout, ok_response [2, 3]]) world0
        [QQStr ''a'', QQStr ''b'', QQStr ''c''] ''avatars'' True 640 =
       (Inr (),
        \<lparr>calls =
           [PathExists ''avatars'', Makedirs ''avatars'' False,
            HttpGet ''http://q.qlogo.cn/headimg_dl?dst_uin=a&spec=640&img_type=jpg'' 10,
            Makedirs ''/home/user/avatars'' True,
            WriteFile ''avatars/a_hd.jpg'' [1],
            HttpGet ''http://q.qlogo.cn/headimg_dl?dst_uin=b&spec=640&img_type=jpg'' 10,
            HttpGet ''http://q.qlogo.cn/headimg_dl?dst_uin=c&spec=640&img_type=jpg'' 10,
            Makedirs ''/home/user/avatars'' True,
            WriteFile ''avatars/c_hd.jpg'' [2, 3]],
         printed =
           [BatchStart 3, Progress 1 3 (QQStr ''a''), Saved ''avatars/a_hd.jpg'' 1,
            Progress 2 3 (QQStr ''b''), DownloadFailed Timeout,
            Progress 3 3 (QQStr ''c''), Saved ''avatars/c_hd.jpg'' 2, BatchDone 2 3]\<rparr>)"
proof -
  let ?E = "sample_env [ok_response [1], Inl Timeout, ok_response [2, 3]]"
  let ?qs = "[QQStr ''a'', QQStr ''b'', QQStr ''c'']"
  have dir: "os_path_exists ?E (calls world0) ''avatars''
             \<or> os_makedirs ?E (calls world0 @ [PathExists ''avatars'']) ''avatars'' False = None"
    by (simp add: sample_env_def)
  have out: "\<And>cs ps m. stdout_write ?E cs ps m = None"
    by (simp add: sample_env_def)
  have urls: "True \<or> (\<forall>qq\<in>set ?qs. py_int (py_str qq) \<noteq> None)"
    by simp
  have run: "batch_download ?E world0 ?qs ''avatars'' True 640 =
       (Inr (),
        \<lparr>calls =
           [PathExists ''avatars'', Makedirs ''avatars'' False,
            HttpGet ''http://q.qlogo.cn/headimg_dl?dst_uin=a&spec=640&img_type=jpg'' 10,
            Makedirs ''/home/user/avatars'' True,
            WriteFile ''avatars/a_hd.jpg'' [1],
            HttpGet ''http://q.qlogo.cn/headimg_dl?dst_uin=b&spec=640&img_type=jpg'' 10,
            HttpGet ''http://q.qlogo.cn/headimg_dl?dst_uin=c&spec=640&img_type=jpg'' 10,
            Makedirs ''/home/user/avatars'' True,
            WriteFile ''avatars/c_hd.jpg'' [2, 3]],
         printed =
           [BatchStart 3, Progress 1 3 (QQStr ''a''), Saved ''avatars/a_hd.jpg'' 1,
            Progress 2 3 (QQStr ''b''), DownloadFailed Timeout,
            Progress 3 3 (QQStr ''c''), Saved ''avatars/c_hd.jpg'' 2, BatchDone 2 3]\<rparr>)"
    by (simp add: io_eval get_avatar_url_hd hd_url_template_def str_int_640)
  from batch_download_processes_all [OF urls dir out, of 640]
  obtain ms w' where "batch_download ?E world0 ?qs ''avatars'' True 640 = (Inr (), w')"
    by blast
  with run show ?thesis
    by (simp add: sample_env_def)
qed

text \<open>
  C6 as stated fails.  With the normal interface the batch \<open>["10001", "x", "10003"]\<close> stops at
  \<open>"x"\<close> with \<open>ValueError\<close>: \<open>"10003"\<close> is never requested and no summary is printed.  A batch
  that runs to its end returns \<open>None\<close>, not a summary.  And on a standard output that cannot
  encode the lines of the program the batch stops at its first \<open>print\<close> with
  \<open>UnicodeEncodeError\<close>, before any identifier is requested.
\<close>

theorem batch_download_counterexample:
  "batch_download (sample_env [ok_response [1], ok_response [2], ok_response [3]]) world0
     [QQStr ''10001'', QQStr ''x'', QQStr ''10003''] ''avatars'' False 100 =
     (Inl ValueError,
      \<lparr>calls =
         [PathExists ''avatars'', Makedirs ''avatars'' False,
          HttpGet ''http://q2.qlogo.cn/g?b=qq&nk=10001&s=100'' 10,
          Makedirs ''/home/user/avatars'' True,
          WriteFile ''avatars/10001.png'' [1]],
       printed =
         [BatchStart 3, Progress 1 3 (QQStr ''10001''), Saved ''avatars/10001.png'' 1,
          Progress 2 3 (QQStr ''x'')]\<rparr>)
   \<and> fst (batch_download (sample_env [ok_response [1], Inl Timeout, ok_response [2, 3]]) world0
            [QQStr ''a'', QQStr ''b'', QQStr ''c''] ''avatars'' True 640) = Inr ()
   \<and> batch_download
        (ascii_stdout (sample_env [ok_response [1], Inl Timeout, ok_response [2, 3]])) world0
        [QQStr ''a'', QQStr ''b'', QQStr ''c''] ''avatars'' True 640 =
       (Inl UnicodeEncodeError,
        \<lparr>calls = [PathExists ''avatars'', Makedirs ''avatars'' False], printed = []\<rparr>)"
  by (simp add: io_eval url_eval)

lemma batch_download_aborts_at:
  assumes bad: "py_int (py_str qq) = None"
    and pre: "\<forall>p\<in>set pre. py_int (py_str p) \<noteq> None"
    and dir: "os_path_exists E (calls w) output_dir
              \<or> os_makedirs E (calls w @ [PathExists output_dir]) output_dir False = None"
    and out: "\<And>cs ps m. stdout_write E cs ps m = None"
  shows "\<exists>w'. batch_download E w (pre @ qq # rest) output_dir False sz = (Inl ValueError, w')
           \<and> map Inr (get_urls (calls w')) =
               map Inr (get_urls (calls w)) @ map (\<lambda>p. get_avatar_url p False sz) pre"
proof -
  from bad have raise: "get_avatar_url qq False sz = Inl ValueError"
    by (simp add: get_avatar_url_normal)
  let ?qs = "pre @ qq # rest"
  let ?n = "length ?qs"
  from pre have built: "\<forall>p\<in>set pre. \<exists>url. get_avatar_url p False sz = Inr url"
    by (simp add: url_built_iff)
  from batch_download_unfold [of w E output_dir ?qs False sz] dir
  obtain w2 where
    u2: "get_urls (calls w2) = get_urls (calls w)"
    and run: "batch_download E w ?qs output_dir False sz =
                (case print E (BatchStart ?n) w2 of
                   (Some e, w3) \<Rightarrow> (Inl e, w3)
                 | (None, w3) \<Rightarrow>
                     (case batch_loop E ?n output_dir False sz ?qs 1 0 w3 of
                        (Inl e, w4) \<Rightarrow> (Inl e, w4)
                      | (Inr success_count, w4) \<Rightarrow>
                          (case print E (BatchDone success_count ?n) w4 of
                             (Some e, w5) \<Rightarrow> (Inl e, w5)
                           | (None, w5) \<Rightarrow> (Inr (), w5))))"
    by auto
  let ?w3 = "w2\<lparr>printed := printed w2 @ [BatchStart ?n]\<rparr>"
  have s: "print E (BatchStart ?n) w2 = (None, ?w3)"
    by (rule print_accepted) (rule out)
  from batch_loop_aborts [OF built raise out, of ?n output_dir rest 1 0 ?w3]
  obtain w4 where
    l: "batch_loop E ?n output_dir False sz ?qs 1 0 ?w3 = (Inl ValueError, w4)"
    and u4: "map Inr (get_urls (calls w4)) =
               map Inr (get_urls (calls ?w3)) @ map (\<lambda>p. get_avatar_url p False sz) pre"
    by blast
  have r: "batch_download E w ?qs output_dir False sz = (Inl ValueError, w4)"
    using run s l by simp
  have u: "map Inr (get_urls (calls w4)) =
             map Inr (get_urls (calls w)) @ map (\<lambda>p. get_avatar_url p False sz) pre"
    using u4 u2 by simp
  from r u show ?thesis
    by blast
qed

lemma batch_download_never_completes:
  assumes mem: "qq \<in> set qq_list" and bad: "py_int (py_str qq) = None"
  shows "\<exists>e w'. batch_download E w qq_list output_dir False sz = (Inl e, w')
           \<and> filter is_batch_done (printed w') = filter is_batch_done (printed w)"
proof -
  let ?n = "length qq_list"
  from bad have "get_avatar_url qq False sz = Inl ValueError"
    by (simp add: get_avatar_url_normal)
  with mem have ex: "\<exists>qq\<in>set qq_list. \<exists>e. get_avatar_url qq False sz = Inl e"
    by blast
  from batch_download_unfold [of w E output_dir qq_list False sz]
  obtain w2 where
    p2: "printed w2 = printed w"
    and alt: "(\<exists>e. batch_download E w qq_list output_dir False sz = (Inl e, w2))
      \<or> batch_download E w qq_list output_dir False sz =
                (case print E (BatchStart ?n) w2 of
                   (Some e, w3) \<Rightarrow> (Inl e, w3)
                 | (None, w3) \<Rightarrow>
                     (case batch_loop E ?n output_dir False sz qq_list 1 0 w3 of
                        (Inl e, w4) \<Rightarrow> (Inl e, w4)
                      | (Inr success_count, w4) \<Rightarrow>
                          (case print E (BatchDone success_count ?n) w4 of
                             (Some e, w5) \<Rightarrow> (Inl e, w5)
                           | (None, w5) \<Rightarrow> (Inr (), w5))))"
    by blast
  from alt show ?thesis
  proof
    assume "\<exists>e. batch_download E w qq_list output_dir False sz = (Inl e, w2)"
    with p2 show ?thesis
      by auto
  next
    assume run: "batch_download E w qq_list output_dir False sz =
                (case print E (BatchStart ?n) w2 of
                   (Some e, w3) \<Rightarrow> (Inl e, w3)
                 | (None, w3) \<Rightarrow>
                     (case batch_loop E ?n output_dir False sz qq_list 1 0 w3 of
                        (Inl e, w4) \<Rightarrow> (Inl e, w4)
                      | (Inr success_count, w4) \<Rightarrow>
                          (case print E (BatchDone success_count ?n) w4 of
                             (Some e, w5) \<Rightarrow> (Inl e, w5)
                           | (None, w5) \<Rightarrow> (Inr (), w5))))"
    from print_outcome [of E "BatchStart ?n" w2]
    show ?thesis
    proof
      assume "\<exists>e. print E (BatchStart ?n) w2 = (Some e, w2)"
      with run p2 show ?thesis
        by auto
    next
      let ?w3 = "w2\<lparr>printed := printed w2 @ [BatchStart ?n]\<rparr>"
      assume s: "print E (BatchStart ?n) w2 = (None, ?w3)"
      from batch_loop_bad_raises [OF ex, of E ?n output_dir 1 0 ?w3]
      obtain e w4 where l: "batch_loop E ?n output_dir False sz qq_list 1 0 ?w3 = (Inl e, w4)"
        by blast
      from batch_loop_no_summary [of E ?n output_dir False sz qq_list 1 0 ?w3] l
      have "filter is_batch_done (printed w4) = filter is_batch_done (printed w)"
        using p2 by simp
      moreover have "batch_download E w qq_list output_dir False sz = (Inl e, w4)"
        using run s l by simp
      ultimately show ?thesis
        by blast
    qed
  qed
qed

lemma batch_loop_requests_prefix:
  assumes built: "\<forall>p\<in>set pre. \<exists>url. get_avatar_url p hd_flag sz = Inr url"
    and bad: "get_avatar_url qq hd_flag sz = Inl e0"
  shows "\<exists>e w' k.
           batch_loop E n od hd_flag sz (pre @ qq # rest) i c w = (Inl e, w')
           \<and> k \<le> length pre
           \<and> map Inr (get_urls (calls w')) =
               map Inr (get_urls (calls w)) @ map (\<lambda>p. get_avatar_url p hd_flag sz) (take k pre)"
  using built
proof (induction pre arbitrary: i c w)
  case Nil
  from print_outcome [of E "Progress i n qq" w]
  show ?case
  proof
    assume "\<exists>e. print E (Progress i n qq) w = (Some e, w)"
    then show ?thesis
      by auto
  next
    let ?w1 = "w\<lparr>printed := printed w @ [Progress i n qq]\<rparr>"
    assume "print E (Progress i n qq) w = (None, ?w1)"
    then have "batch_loop E n od hd_flag sz (qq # rest) i c w = (Inl e0, ?w1)"
      using bad by (simp add: Let_def download_avatar_raises)
    then show ?thesis
      by simp
  qed
next
  case (Cons p pre)
  let ?p = "os_path_join E od (py_str p @ (if hd_flag then ''_hd.jpg'' else ''.png''))"
  from print_outcome [of E "Progress i n p" w]
  show ?case
  proof
    assume "\<exists>e. print E (Progress i n p) w = (Some e, w)"
    then obtain e where "batch_loop E n od hd_flag sz ((p # pre) @ qq # rest) i c w = (Inl e, w)"
      by auto
    then show ?thesis
      by (intro exI [of _ e] exI [of _ w] exI [of _ 0]) simp
  next
    let ?w1 = "w\<lparr>printed := printed w @ [Progress i n p]\<rparr>"
    assume pr1: "print E (Progress i n p) w = (None, ?w1)"
    from Cons.prems obtain url where url: "get_avatar_url p hd_flag sz = Inr url"
      by auto
    from download_avatar_effects [OF url, of E ?w1 "Some ?p"]
    obtain r fs ms w2 where
      d: "download_avatar E ?w1 p (Some ?p) hd_flag sz = (r, w2)"
      and c2: "calls w2 = calls ?w1 @ HttpGet url 10 # fs"
      and fs: "\<forall>c\<in>set fs. \<not> is_http c"
      by blast
    have u2: "get_urls (calls w2) = get_urls (calls w) @ [url]"
      using c2 fs by (simp add: get_urls_append get_urls_no_http)
    show ?thesis
    proof (cases r)
      case (Inl e)
      with pr1 d have "batch_loop E n od hd_flag sz ((p # pre) @ qq # rest) i c w = (Inl e, w2)"
        by (simp add: Let_def)
      with u2 url show ?thesis
        by (intro exI [of _ e] exI [of _ w2] exI [of _ 1]) simp
    next
      case (Inr ok)
      from Cons.prems have pre: "\<forall>p\<in>set pre. \<exists>url. get_avatar_url p hd_flag sz = Inr url"
        by simp
      from Cons.IH [OF pre, of "i + 1" "if ok then c + 1 else c" w2]
      obtain e w' k where
        l: "batch_loop E n od hd_flag sz (pre @ qq # rest) (i + 1) (if ok then c + 1 else c) w2 =
              (Inl e, w')"
        and k: "k \<le> length pre"
        and u': "map Inr (get_urls (calls w')) =
                   map Inr (get_urls (calls w2)) @
                   map (\<lambda>p. get_avatar_url p hd_flag sz) (take k pre)"
        by blast
      have "batch_loop E n od hd_flag sz ((p # pre) @ qq # rest) i c w = (Inl e, w')"
        using pr1 d Inr l by (simp add: Let_def)
      moreover have "Suc k \<le> length (p # pre)"
        using k by simp
      moreover have "map Inr (get_urls (calls w')) =
          map Inr (get_urls (calls w)) @
          map (\<lambda>p. get_avatar_url p hd_flag sz) (take (Suc k) (p # pre))"
        using u' u2 url by simp
      ultimately show ?thesis
        by blast
    qed
  qed
qed

lemma batch_download_requests_prefix:
  assumes bad: "py_int (py_str qq) = None"
    and pre: "\<forall>p\<in>set pre. py_int (py_str p) \<noteq> None"
  shows "\<exists>e w' k.
           batch_download E w (pre @ qq # rest) output_dir False sz = (Inl e, w')
           \<and> k \<le> length pre
           \<and> map Inr (get_urls (calls w')) =
               map Inr (get_urls (calls w)) @ map (\<lambda>p. get_avatar_url p False sz) (take k pre)"
proof -
  let ?qs = "pre @ qq # rest"
  let ?n = "length ?qs"
  from bad have raise: "get_avatar_url qq False sz = Inl ValueError"
    by (simp add: get_avatar_url_normal)
  from pre have built: "\<forall>p\<in>set pre. \<exists>url. get_avatar_url p False sz = Inr url"
    by (simp add: url_built_iff)
  from batch_download_unfold [of w E output_dir ?qs False sz]
  obtain w2 where
    u2: "get_urls (calls w2) = get_urls (calls w)"
    and alt: "(\<exists>e. batch_download E w ?qs output_dir False sz = (Inl e, w2))
      \<or> batch_download E w ?qs output_dir False sz =
                (case print E (BatchStart ?n) w2 of
                   (Some e, w3) \<Rightarrow> (Inl e, w3)
                 | (None, w3) \<Rightarrow>
                     (case batch_loop E ?n output_dir False sz ?qs 1 0 w3 of
                        (Inl e, w4) \<Rightarrow> (Inl e, w4)
                      | (Inr success_count, w4) \<Rightarrow>
                          (case print E (BatchDone success_count ?n) w4 of
                             (Some e, w5) \<Rightarrow> (Inl e, w5)
                           | (None, w5) \<Rightarrow> (Inr (), w5))))"
    by blast
  from alt show ?thesis
  proof
    assume "\<exists>e. batch_download E w ?qs output_dir False sz = (Inl e, w2)"
    then obtain e where "batch_download E w ?qs output_dir False sz = (Inl e, w2)" ..
    with u2 show ?thesis
      by (intro exI [of _ e] exI [of _ w2] exI [of _ 0]) simp
  next
    assume run: "batch_download E w ?qs output_dir False sz =
                (case print E (BatchStart ?n) w2 of
                   (Some e, w3) \<Rightarrow> (Inl e, w3)
                 | (None, w3) \<Rightarrow>
                     (case batch_loop E ?n output_dir False sz ?qs 1 0 w3 of
                        (Inl e, w4) \<Rightarrow> (Inl e, w4)
                      | (Inr success_count, w4) \<Rightarrow>
                          (case print E (BatchDone success_count ?n) w4 of
                             (Some e, w5) \<Rightarrow> (Inl e, w5)
                           | (None, w5) \<Rightarrow> (Inr (), w5))))"
    from print_outcome [of E "BatchStart ?n" w2]
    show ?thesis
    proof
      assume "\<exists>e. print E (BatchStart ?n) w2 = (Some e, w2)"
      then obtain e where "print E (BatchStart ?n) w2 = (Some e, w2)" ..
      with run have "batch_download E w ?qs output_dir False sz = (Inl e, w2)"
        by simp
      with u2 show ?thesis
        by (intro exI [of _ e] exI [of _ w2] exI [of _ 0]) simp
    next
      let ?w3 = "w2\<lparr>printed := printed w2 @ [BatchStart ?n]\<rparr>"
      assume s: "print E (BatchStart ?n) w2 = (None, ?w3)"
      from batch_loop_requests_prefix [OF built raise, of E ?n output_dir rest 1 0 ?w3]
      obtain e w4 k where
        l: "batch_loop E ?n output_dir False sz ?qs 1 0 ?w3 = (Inl e, w4)"
        and k: "k \<le> length pre"
        and u4: "map Inr (get_urls (calls w4)) =
                   map Inr (get_urls (calls ?w3)) @
                   map (\<lambda>p. get_avatar_url p False sz) (take k pre)"
        by blast
      have "batch_download E w ?qs output_dir False sz = (Inl e, w4)"
        using run s l by simp
      moreover have "map Inr (get_urls (calls w4)) =
          map Inr (get_urls (calls w)) @ map (\<lambda>p. get_avatar_url p False sz) (take k pre)"
        using u4 u2 by simp
      ultimately show ?thesis
        using k by blast
    qed
  qed
qed

text \<open>
  C9.  \<open>download_avatar\<close> builds the URL before its \<open>try\<close>.  For the normal interface and an
  identifier that is not an integer it raises \<open>ValueError\<close> to its caller, with nothing requested
  or printed.  A batch that contains such an identifier never runs to its end: \<open>batch_download\<close>
  raises and prints no summary line.  When the identifier follows identifiers that are integers,
  the batch is aborted at it or before it: only identifiers before it have been requested, in
  their order, and none after it.  When moreover the output directory could be set up and the
  standard output takes every line, the batch is aborted exactly there: it raises that
  \<open>ValueError\<close> and every identifier before it has been requested.
\<close>

theorem unparseable_raises_and_aborts_batch:
  assumes bad: "py_int (py_str qq) = None"
  shows "download_avatar E w qq save_path False sz = (Inl ValueError, w)
         \<and> (qq \<in> set qq_list \<longrightarrow>
              (\<exists>e w'. batch_download E w qq_list output_dir False sz = (Inl e, w')
                 \<and> filter is_batch_done (printed w') = filter is_batch_done (printed w)))
         \<and> ((\<forall>p\<in>set pre. py_int (py_str p) \<noteq> None) \<longrightarrow>
              (\<exists>e w' k.
                 batch_download E w (pre @ qq # rest) output_dir False sz = (Inl e, w')
                 \<and> k \<le> length pre
                 \<and> map Inr (get_urls (calls w')) =
                     map Inr (get_urls (calls w)) @
                     map (\<lambda>p. get_avatar_url p False sz) (take k pre)
                 \<and> filter is_batch_done (printed w') = filter is_batch_done (printed w)
                 \<and> ((os_path_exists E (calls w) output_dir
                      \<or> os_makedirs E (calls w @ [PathExists output_dir]) output_dir False = None)
                     \<longrightarrow> (\<forall>cs ps m. stdout_write E cs ps m = None)
                     \<longrightarrow> e = ValueError \<and> k = length pre)))"
proof (intro conjI impI)
  from bad have "get_avatar_url qq False sz = Inl ValueError"
    by (simp add: get_avatar_url_normal)
  then show "download_avatar E w qq save_path False sz = (Inl ValueError, w)"
    by (rule download_avatar_raises)
next
  assume "qq \<in> set qq_list"
  then show "\<exists>e w'. batch_download E w qq_list output_dir False sz = (Inl e, w')
                 \<and> filter is_batch_done (printed w') = filter is_batch_done (printed w)"
    using bad by (rule batch_download_never_completes)
next
  assume pre: "\<forall>p\<in>set pre. py_int (py_str p) \<noteq> None"
  let ?qs = "pre @ qq # rest"
  let ?ok = "(os_path_exists E (calls w) output_dir
              \<or> os_makedirs E (calls w @ [PathExists output_dir]) output_dir False = None)
             \<and> (\<forall>cs ps m. stdout_write E cs ps m = None)"
  have mem: "qq \<in> set ?qs"
    by simp
  have quiet: "filter is_batch_done (printed w') = filter is_batch_done (printed w)"
    if "batch_download E w ?qs output_dir False sz = (r, w')" for r w'
    using batch_download_never_completes [OF mem bad, of E w output_dir sz] that by auto
  show "\<exists>e w' k.
          batch_download E w ?qs output_dir False sz = (Inl e, w')
          \<and> k \<le> length pre
          \<and> map Inr (get_urls (calls w')) =
              map Inr (get_urls (calls w)) @ map (\<lambda>p. get_avatar_url p False sz) (take k pre)
          \<and> filter is_batch_done (printed w') = filter is_batch_done (printed w)
          \<and> ((os_path_exists E (calls w) output_dir
               \<or> os_makedirs E (calls w @ [PathExists output_dir]) output_dir False = None)
              \<longrightarrow> (\<forall>cs ps m. stdout_write E cs ps m = None)
              \<longrightarrow> e = ValueError \<and> k = length pre)"
  proof (cases ?ok)
    case True
    then have dir: "os_path_exists E (calls w) output_dir
        \<or> os_makedirs E (calls w @ [PathExists output_dir]) output_dir False = None"
      and out: "\<And>cs ps m. stdout_write E cs ps m = None"
      by simp_all
    from batch_download_aborts_at [OF bad pre dir out, where sz = sz and rest = rest]
    obtain w' where
      r: "batch_download E w ?qs output_dir False sz = (Inl ValueError, w')"
      and u: "map Inr (get_urls (calls w')) =
                map Inr (get_urls (calls w)) @ map (\<lambda>p. get_avatar_url p False sz) pre"
      by blast
    from quiet [OF r] r u show ?thesis
      by (intro exI [of _ ValueError] exI [of _ w'] exI [of _ "length pre"]) simp
  next
    case False
    from batch_download_requests_prefix [OF bad pre, of E w rest output_dir sz]
    obtain e w' k where
      r: "batch_download E w ?qs output_dir False sz = (Inl e, w')"
      and k: "k \<le> length pre"
      and u: "map Inr (get_urls (calls w')) =
                map Inr (get_urls (calls w)) @
                map (\<lambda>p. get_avatar_url p False sz) (take k pre)"
      by blast
    from quiet [OF r] r k u False show ?thesis
      by (intro exI [of _ e] exI [of _ w'] exI [of _ k]) auto
  qed
qed

theorem unparseable_raises_and_aborts_batch_witness:
  "py_int (py_str (QQStr ''x'')) = None
   \<and> download_avatar (sample_env [ok_response [1]]) world0 (QQStr ''x'') None False 100 =
       (Inl ValueError, world0)
   \<and> py_int (py_str (QQStr ''10001'')) = Some 10001
   \<and> (\<exists>w'. batch_download (sample_env [ok_response [1], ok_response [2], ok_response [3]]) world0
              ([QQStr ''10001''] @ QQStr ''x'' # [QQStr ''10003'']) ''avatars'' False 100 =
              (Inl ValueError, w')
         \<and> get_urls (calls w') = [''http://q2.qlogo.cn/g?b=qq&nk=10001&s=100''])"
proof -
  let ?E = "sample_env [ok_response [1], ok_response [2], ok_response [3]]"
  have bad: "py_int (py_str (QQStr ''x'')) = None"
    by (simp add: url_eval)
  have one: "py_int (py_str (QQStr ''10001'')) = Some 10001"
    by (simp add: url_eval)
  then have pre: "\<forall>p\<in>set [QQStr ''10001'']. py_int (py_str p) \<noteq> None"
    by simp
  have dir: "os_path_exists ?E (calls world0) ''avatars''
             \<or> os_makedirs ?E (calls world0 @ [PathExists ''avatars'']) ''avatars'' False = None"
    by (simp add: sample_env_def)
  have out: "\<forall>cs ps m. stdout_write ?E cs ps m = None"
    by (simp add: sample_env_def)
  have u1: "get_avatar_url (QQStr ''10001'') False 100 =
              Inr ''http://q2.qlogo.cn/g?b=qq&nk=10001&s=100''"
    by (simp add: url_eval)
  note t = unparseable_raises_and_aborts_batch [OF bad]
  from t [where E = "sample_env [ok_response [1]]" and w = world0 and save_path = None
      and sz = 100]
  have d: "download_avatar (sample_env [ok_response [1]]) world0 (QQStr ''x'') None False 100 =
             (Inl ValueError, world0)"
    by simp
  note t3 = t [where E = ?E and w = world0 and sz = 100 and output_dir = "''avatars''"
      and pre = "[QQStr ''10001'']" and rest = "[QQStr ''10003'']",
      THEN conjunct2, THEN conjunct2, THEN mp, OF pre]
  from t3 obtain e w' k where
    r: "batch_download ?E world0 ([QQStr ''10001''] @ QQStr ''x'' # [QQStr ''10003''])
          ''avatars'' False 100 = (Inl e, w')"
    and u: "map Inr (get_urls (calls w')) =
              (map Inr (get_urls (calls world0)) @
               map (\<lambda>p. get_avatar_url p False 100) (take k [QQStr ''10001''])
               :: (pyexc + string) list)"
    and exact: "(os_path_exists ?E (calls world0) ''avatars''
                 \<or> os_makedirs ?E (calls world0 @ [PathExists ''avatars'']) ''avatars'' False
                    = None)
                \<longrightarrow> (\<forall>cs ps m. stdout_write ?E cs ps m = None)
                \<longrightarrow> e = ValueError \<and> k = length [QQStr ''10001'']"
    by (elim exE conjE)
  from exact dir out have e: "e = ValueError" and k: "k = 1"
    by auto
  from u have "get_urls (calls w') = [''http://q2.qlogo.cn/g?b=qq&nk=10001&s=100'']"
    unfolding k using u1 by (simp add: world0_def map_eq_Cons_conv)
  with r e have "\<exists>w'. batch_download ?E world0
       ([QQStr ''10001''] @ QQStr ''x'' # [QQStr ''10003'']) ''avatars'' False 100 =
       (Inl ValueError, w')
     \<and> get_urls (calls w') = [''http://q2.qlogo.cn/g?b=qq&nk=10001&s=100'']"
    by blast
  with bad d one show ?thesis
    by blast
qed

end
